theory Spec2Isabelle
  imports Complex_Main "HOL-Library.Word"
begin

unbundle bit_operations_syntax

section \<open>Bit layouts\<close>

text \<open>
  The header \<^verbatim>\<open>float16_t.hpp\<close> overlays a raw integer and a bit-field record in two
  unions.  A union value is modelled by its raw integer (\<^verbatim>\<open>bits_\<close>); the bit-field views are
  accessor functions on that integer (\<^verbatim>\<open>ieee_.frac_\<close> is \<open>ieee_frac\<close>, and so on).  The host
  type \<^verbatim>\<open>float\<close> is modelled by its 32-bit object representation, which is what
  \<^verbatim>\<open>float32::float_\<close> shares with \<^verbatim>\<open>float32::bits_\<close>.
\<close>

type_synonym uint16_t = "16 word"
type_synonym uint32_t = "32 word"

type_synonym float16 = uint16_t
type_synonym float32 = uint32_t

definition ieee_frac :: "float16 \<Rightarrow> uint16_t" where
  "ieee_frac h = h AND 0x3ff"

definition ieee_exp :: "float16 \<Rightarrow> uint16_t" where
  "ieee_exp h = drop_bit 10 h AND 0x1f"

definition ieee_sign :: "float16 \<Rightarrow> uint16_t" where
  "ieee_sign h = drop_bit 15 h"

text \<open>\<^verbatim>\<open>to_float16\<close>: \<^verbatim>\<open>static_cast<std::uint16_t>(val)\<close> keeps the low 16 bits.\<close>

definition to_float16 :: "uint32_t \<Rightarrow> float16" where
  "to_float16 val = ucast val"

section \<open>Narrowing: \<^verbatim>\<open>float32_to_float16\<close>\<close>

text \<open>
  \<^verbatim>\<open>unbiased_exponent\<close> is computed in \<^verbatim>\<open>uint32_t\<close> (wrapping) and stored in an
  \<^verbatim>\<open>int32_t\<close>, hence \<open>sint\<close>; its value lies in \<open>-127..127\<close>, so adding 15 cannot overflow
  and \<^verbatim>\<open>half_exponent\<close> is an \<open>int\<close>.  The shifts by \<^verbatim>\<open>14 - half_exponent\<close> and
  \<^verbatim>\<open>13 - half_exponent\<close> are only reached for \<open>-10 \<le> half_exponent \<le> 0\<close>.
\<close>

definition float32_to_float16 :: "float32 \<Rightarrow> float16" where
  "float32_to_float16 input =
    (let u32 = input;
         sign = u32 AND 0x80000000;
         exponent = u32 AND 0x7f800000;
         coef = u32 AND 0x7fffff
     in if exponent = 0x7f800000 then
          (let nan_bit = (if coef \<noteq> 0 then 0x200 else 0)
           in to_float16 (drop_bit 16 sign OR 0x7c00 OR nan_bit OR drop_bit 13 coef))
        else
          (let half_sign = drop_bit 16 sign;
               unbiased_exponent = sint (drop_bit 23 exponent - 127);
               half_exponent = unbiased_exponent + 15
           in if half_exponent = 0x1f then to_float16 (half_sign OR 0x7c00)
              else if half_exponent \<le> 0 then
                (if half_exponent < - 10 then to_float16 half_sign
                 else
                   (let c = coef OR 0x800000;
                        half_coef = drop_bit (nat (14 - half_exponent)) c;
                        round_bit = push_bit (nat (13 - half_exponent)) 1
                    in if c AND round_bit \<noteq> 0 \<and> c AND (3 * round_bit - 1) \<noteq> 0
                       then to_float16 (half_sign OR (half_coef + 1))
                       else to_float16 (half_sign OR half_coef)))
              else
                (let uhalf_exponent = push_bit 10 (word_of_int half_exponent);
                     half_coef = drop_bit 13 coef;
                     round_bit = 0x1000
                 in if coef AND round_bit \<noteq> 0 \<and> coef AND (3 * round_bit - 1) \<noteq> 0
                    then to_float16 ((half_sign OR uhalf_exponent OR half_coef) + 1)
                    else to_float16 (half_sign OR uhalf_exponent OR half_coef))))"

section \<open>Widening: \<^verbatim>\<open>float16_to_float32\<close>\<close>

text \<open>
  The \<^verbatim>\<open>while\<close> loop of the subnormal branch, on the pair of the two variables it updates:
  \<^verbatim>\<open>while( coef & 0x7f800000 ) { coef <<= 1; --exponent; }\<close>.
  It terminates on every input, because each left shift of a 32-bit value brings it one step
  closer to zero.
\<close>

function float16_to_float32_loop :: "uint32_t \<Rightarrow> uint32_t \<Rightarrow> uint32_t \<times> uint32_t" where
  "float16_to_float32_loop coef exponent =
     (if coef AND 0x7f800000 \<noteq> 0
      then float16_to_float32_loop (push_bit 1 coef) (exponent - 1)
      else (coef, exponent))"
  by pat_completeness auto
termination
proof (relation "measure (\<lambda>(coef, exponent). LEAST k. push_bit k coef = 0)")
  show "wf (measure (\<lambda>(coef :: uint32_t, exponent :: uint32_t). LEAST k. push_bit k coef = 0))"
    by simp
next
  fix coef exponent :: uint32_t
  assume "coef AND 0x7f800000 \<noteq> 0"
  then have nonzero: "coef \<noteq> 0"
    by auto
  have shifted_out: "push_bit 32 coef = 0"
    by (rule bit_word_eqI) (simp add: bit_simps)
  have "(LEAST k. push_bit k coef = 0) = Suc (LEAST m. push_bit (Suc m) coef = 0)"
    by (rule Least_Suc [where n = 32]) (use nonzero shifted_out in simp_all)
  then show "((push_bit 1 coef, exponent - 1), (coef, exponent))
      \<in> measure (\<lambda>(coef, exponent). LEAST k. push_bit k coef = 0)"
    by (simp add: ac_simps)
qed

text \<open>
  The operands \<^verbatim>\<open>input & 0x8000\<close> etc. are promoted to 32 bits before they are shifted;
  \<^verbatim>\<open>sign | ( exponent + 0x70 ) << 23 | coef\<close> parses as
  \<^verbatim>\<open>sign | (( exponent + 0x70 ) << 23) | coef\<close>.
\<close>

definition float16_to_float32 :: "uint16_t \<Rightarrow> float32" where
  "float16_to_float32 input =
    (let sign = push_bit 16 (ucast (input AND 0x8000));
         exponent = drop_bit 10 (ucast (input AND 0x7c00));
         coef = push_bit 13 (ucast (input AND 0x3ff))
     in if exponent = 0x1f then
          (if coef = 0 then sign OR 0x7f800000 OR coef
           else sign OR 0x7fc00000 OR coef)
        else if exponent = 0 then
          (if coef = 0 then sign
           else
             (let (coef1, exponent1) = float16_to_float32_loop coef (exponent + 1);
                  coef2 = coef1 AND 0x7fffff
              in sign OR push_bit 23 (exponent1 + 0x70) OR coef2))
        else sign OR push_bit 23 (exponent + 0x70) OR coef)"

section \<open>The value type \<^verbatim>\<open>float16_t\<close>\<close>

text \<open>The only member of the struct is \<^verbatim>\<open>data_\<close>; the field \<open>data_bits\<close> is \<^verbatim>\<open>data_.bits_\<close>.\<close>

record float16_t =
  data_bits :: float16

definition float16_t_of_float :: "float32 \<Rightarrow> float16_t" where
  "float16_t_of_float other = \<lparr>data_bits = float32_to_float16 other\<rparr>"

definition float16_t_of_bits :: "uint16_t \<Rightarrow> float16_t" where
  "float16_t_of_bits bits = \<lparr>data_bits = bits\<rparr>"

definition operator_float :: "float16_t \<Rightarrow> float32" where
  "operator_float f = float16_to_float32 (data_bits f)"

definition operator_uint16_t :: "float16_t \<Rightarrow> uint16_t" where
  "operator_uint16_t f = data_bits f"

text \<open>Unary minus: \<^verbatim>\<open>(data_.bits_ & 0x7fff) | (data_.bits_ ^ 0x8000)\<close>.\<close>

definition operator_neg :: "float16_t \<Rightarrow> float16_t" where
  "operator_neg f = float16_t_of_bits ((data_bits f AND 0x7fff) OR (data_bits f XOR 0x8000))"

definition fp16_infinity :: float16_t where
  "fp16_infinity = float16_t_of_bits 0x7c00"

definition fp16_nan :: float16_t where
  "fp16_nan = float16_t_of_bits 0x7e00"

definition fp16_zero :: float16_t where
  "fp16_zero = float16_t_of_bits 0x0"

definition fp16_zero_negative :: float16_t where
  "fp16_zero_negative = float16_t_of_bits 0x8000"

subsection \<open>Classification predicates\<close>

definition is_nan :: "float16_t \<Rightarrow> bool" where
  "is_nan f16 \<longleftrightarrow> (operator_uint16_t f16 AND 0x7fff) > 0x7f80"

definition is_inf :: "float16_t \<Rightarrow> bool" where
  "is_inf f16 \<longleftrightarrow> (operator_uint16_t f16 AND 0x7fff) = 0x7f80"

definition is_finite :: "float16_t \<Rightarrow> bool" where
  "is_finite f16 \<longleftrightarrow> (operator_uint16_t f16 AND 0x7f80) \<noteq> 0x7f80"

definition is_normal :: "float16_t \<Rightarrow> bool" where
  "is_normal f16 \<longleftrightarrow>
     (let exponent = operator_uint16_t f16 AND 0x7f80
      in exponent \<noteq> 0x7f80 \<and> exponent \<noteq> 0)"

definition is_positive :: "float16_t \<Rightarrow> bool" where
  "is_positive f16 \<longleftrightarrow> (operator_uint16_t f16 AND 0x8000) = 0"

definition is_negative :: "float16_t \<Rightarrow> bool" where
  "is_negative f16 \<longleftrightarrow> (operator_uint16_t f16 AND 0x8000) \<noteq> 0"

subsection \<open>Wrappers of the host math library\<close>

text \<open>
  The host's \<^verbatim>\<open><cmath>\<close> is not part of the header: the two functions the wrappers
  \<^verbatim>\<open>fmax\<close> and \<^verbatim>\<open>fmin\<close> could call are the fields of a record that the wrappers take as
  a parameter.
\<close>

record cmath =
  std_fmax :: "float32 \<Rightarrow> float32 \<Rightarrow> float32"
  std_fmin :: "float32 \<Rightarrow> float32 \<Rightarrow> float32"

definition make_binary_function ::
  "(float32 \<Rightarrow> float32 \<Rightarrow> float32) \<Rightarrow> float16_t \<Rightarrow> float16_t \<Rightarrow> float16_t" where
  "make_binary_function func f1 f2 =
     float16_t_of_float (func (operator_float f1) (operator_float f2))"

definition fmax :: "cmath \<Rightarrow> float16_t \<Rightarrow> float16_t \<Rightarrow> float16_t" where
  "fmax host = make_binary_function (\<lambda>f1 f2. std_fmax host f1 f2)"

definition fmin :: "cmath \<Rightarrow> float16_t \<Rightarrow> float16_t \<Rightarrow> float16_t" where
  "fmin host = make_binary_function (\<lambda>f1 f2. std_fmax host f1 f2)"

subsection \<open>Stream extraction\<close>

text \<open>
  An input stream is its state flags and whatever else the host keeps (\<open>rdbuf\<close>).  The host's
  extraction of a \<^verbatim>\<open>float\<close>, \<^verbatim>\<open>is >> __v\<close>, is a parameter: it returns the stream after the
  attempt and the content of \<^verbatim>\<open>__v\<close>.  The stream converts to \<^verbatim>\<open>true\<close> when \<^verbatim>\<open>fail()\<close> is
  false.  Streams are taken with the default exception mask, under which \<^verbatim>\<open>setstate\<close> does not
  throw.
\<close>

record 's basic_istream =
  failbit :: bool
  badbit :: bool
  eofbit :: bool
  rdbuf :: 's

definition fail :: "'s basic_istream \<Rightarrow> bool" where
  "fail strm \<longleftrightarrow> failbit strm \<or> badbit strm"

definition setstate_failbit :: "'s basic_istream \<Rightarrow> 's basic_istream" where
  "setstate_failbit strm = strm\<lparr>failbit := True\<rparr>"

definition operator_extract ::
  "('s basic_istream \<Rightarrow> 's basic_istream \<times> float32) \<Rightarrow>
   's basic_istream \<Rightarrow> float16_t \<Rightarrow> 's basic_istream \<times> float16_t" where
  "operator_extract host_extract strm f =
     (let (strm1, v) = host_extract strm
      in if \<not> fail strm1
         then (strm1, float16_t_of_float v)
         else (setstate_failbit strm1, f))"

text \<open>
  A small host extraction to run \<open>operator_extract\<close> on: the stream holds a list of tokens,
  each one either the \<^verbatim>\<open>float\<close> it parses to or \<open>None\<close> for text that is not a number.  A
  failed extraction sets \<^verbatim>\<open>failbit\<close> and stores zero, as the host does since C++11.
\<close>

definition token_extract ::
  "float32 option list basic_istream \<Rightarrow> float32 option list basic_istream \<times> float32" where
  "token_extract strm =
     (if fail strm then (setstate_failbit strm, 0)
      else case rdbuf strm of
        [] \<Rightarrow> (strm\<lparr>failbit := True, eofbit := True\<rparr>, 0)
      | Some v # rest \<Rightarrow> (strm\<lparr>rdbuf := rest\<rparr>, v)
      | None # rest \<Rightarrow> (strm\<lparr>failbit := True\<rparr>, 0))"

section \<open>Reference notions\<close>

text \<open>
  The value a bit pattern stands for under IEEE-754, as an exact rational: binary32 for the
  host \<^verbatim>\<open>float\<close> (1 sign bit, 8 exponent bits of bias 127, 23 fraction bits) and binary16
  for the bit fields of \<^verbatim>\<open>float16\<close> (1 sign bit, 5 exponent bits of bias 15, 10 fraction
  bits).  Infinities and NaNs have no value.
\<close>

definition float32_value :: "float32 \<Rightarrow> rat option" where
  "float32_value w =
     (let e = unat (drop_bit 23 w AND 0xff);
          f = unat (w AND 0x7fffff);
          m = (if e = 0 then of_nat f / 2 ^ 149 else of_nat ((2 ^ 23 + f) * 2 ^ e) / 2 ^ 150)
      in if e = 255 then None else Some (if bit w 31 then - m else m))"

definition float16_value :: "float16 \<Rightarrow> rat option" where
  "float16_value h =
     (let e = unat (ieee_exp h);
          f = unat (ieee_frac h);
          m = (if e = 0 then of_nat f / 2 ^ 24 else of_nat ((2 ^ 10 + f) * 2 ^ e) / 2 ^ 25)
      in if e = 31 then None else Some (if ieee_sign h = 1 then - m else m))"

text \<open>
  \<open>nearest_float32 x w\<close>: the positive finite pattern \<open>w\<close> is strictly closer to \<open>x\<close> than
  both of its neighbours \<open>w - 1\<close> and \<open>w + 1\<close>, whose values enclose it.  Since the value
  grows with the pattern, \<open>w\<close> is then the \<^verbatim>\<open>float\<close> nearest to \<open>x\<close>.
\<close>

definition nearest_float32 :: "rat \<Rightarrow> float32 \<Rightarrow> bool" where
  "nearest_float32 x w \<longleftrightarrow>
     (case (float32_value (w - 1), float32_value w, float32_value (w + 1)) of
        (Some lo, Some v, Some hi) \<Rightarrow>
          0 < lo \<and> lo < v \<and> v < hi \<and> \<bar>v - x\<bar> < \<bar>lo - x\<bar> \<and> \<bar>v - x\<bar> < \<bar>hi - x\<bar>
      | _ \<Rightarrow> False)"

text \<open>
  The five categories of the classification property: \<open>is_nan\<close>, \<open>is_inf\<close> and \<open>is_normal\<close>
  are the header's predicates; zero and subnormal are not functions of the header and are
  taken as the property words them, on the raw pattern and on the bit fields.
\<close>

definition is_zero :: "float16_t \<Rightarrow> bool" where
  "is_zero f16 \<longleftrightarrow> (operator_uint16_t f16 AND 0x7fff) = 0"

definition is_subnormal :: "float16_t \<Rightarrow> bool" where
  "is_subnormal f16 \<longleftrightarrow>
     ieee_exp (operator_uint16_t f16) = 0 \<and> ieee_frac (operator_uint16_t f16) \<noteq> 0"

definition categories :: "float16_t \<Rightarrow> bool list" where
  "categories f16 = [is_nan f16, is_inf f16, is_normal f16, is_zero f16, is_subnormal f16]"

text \<open>
  Named views of the local variables of \<^verbatim>\<open>float32_to_float16\<close> on its two rounding paths
  (the subnormal path for \<open>half_exponent \<le> 0\<close>, the normal path otherwise): the exponent
  \<^verbatim>\<open>half_exponent\<close>, the value whose low bits are discarded (\<^verbatim>\<open>c\<close>, respectively
  \<^verbatim>\<open>coef\<close>), the position of the round bit, and the pattern returned with and without the
  increment.
\<close>

definition half_exponent :: "float32 \<Rightarrow> int" where
  "half_exponent input = sint (drop_bit 23 (input AND 0x7f800000) - 127) + 15"

definition significand :: "float32 \<Rightarrow> uint32_t" where
  "significand input =
     (if half_exponent input \<le> 0 then (input AND 0x7fffff) OR 0x800000
      else input AND 0x7fffff)"

definition round_pos :: "float32 \<Rightarrow> nat" where
  "round_pos input =
     (if half_exponent input \<le> 0 then nat (13 - half_exponent input) else 12)"

definition round_bit :: "float32 \<Rightarrow> uint32_t" where
  "round_bit input = push_bit (round_pos input) 1"

definition rounded :: "float32 \<Rightarrow> bool \<Rightarrow> float16" where
  "rounded input up =
     (let half_sign = drop_bit 16 (input AND 0x80000000);
          half_coef = drop_bit (Suc (round_pos input)) (significand input);
          inc = (if up then 1 else 0)
      in if half_exponent input \<le> 0 then to_float16 (half_sign OR (half_coef + inc))
         else to_float16
           ((half_sign OR push_bit 10 (word_of_int (half_exponent input)) OR half_coef) + inc))"

text \<open>The test the code applies before it increments, on a significand and a round bit.\<close>

definition round_up_test :: "uint32_t \<Rightarrow> uint32_t \<Rightarrow> bool" where
  "round_up_test c rb \<longleftrightarrow> c AND rb \<noteq> 0 \<and> c AND (3 * rb - 1) \<noteq> 0"

text \<open>The test as the specification words it, with \<^verbatim>\<open>2*round_bit - 1\<close> as the second mask.\<close>

definition claimed_round_up_test :: "uint32_t \<Rightarrow> uint32_t \<Rightarrow> bool" where
  "claimed_round_up_test c rb \<longleftrightarrow> c AND rb \<noteq> 0 \<and> c AND (2 * rb - 1) \<noteq> 0"

text \<open>
  Round to nearest, ties to even, in arithmetic: when the low \<open>k + 1\<close> bits of \<open>n\<close> are
  discarded and \<open>k\<close> is the position of the round bit, the kept part is incremented when the
  discarded part is more than half a unit, or exactly half a unit with an odd kept part.
\<close>

definition nearest_even_up :: "nat \<Rightarrow> nat \<Rightarrow> bool" where
  "nearest_even_up n k \<longleftrightarrow>
     (let discarded = n mod 2 ^ Suc k; kept = n div 2 ^ Suc k
      in 2 ^ k < discarded \<or> (discarded = 2 ^ k \<and> odd kept))"

section \<open>Bits of the constants\<close>

lemma bit16_0x8000: "bit (0x8000 :: 16 word) n \<longleftrightarrow> n = 15"
  using bit_exp_iff [where ?'a = "16 word" and m = 15 and n = n] by auto

lemma bit16_0x7fff: "bit (0x7fff :: 16 word) n \<longleftrightarrow> n < 15"
  using bit_mask_iff [where ?'a = "16 word" and m = 15 and n = n]
  by (auto simp: mask_eq_exp_minus_1)

lemma bit16_0x7f80: "bit (0x7f80 :: 16 word) n \<longleftrightarrow> 7 \<le> n \<and> n < 15"
proof -
  have "(0x7f80 :: 16 word) = push_bit 7 (mask 8)"
    by (simp add: mask_eq_exp_minus_1)
  then show ?thesis
    by (simp only: bit_push_bit_iff bit_mask_iff) (auto simp: possible_bit_word)
qed

lemma bit16_0x3ff: "bit (0x3ff :: 16 word) n \<longleftrightarrow> n < 10"
  using bit_mask_iff [where ?'a = "16 word" and m = 10 and n = n]
  by (auto simp: mask_eq_exp_minus_1)

lemma bit16_0x1f: "bit (0x1f :: 16 word) n \<longleftrightarrow> n < 5"
  using bit_mask_iff [where ?'a = "16 word" and m = 5 and n = n]
  by (auto simp: mask_eq_exp_minus_1)

lemmas bit16_consts = bit16_0x8000 bit16_0x7fff bit16_0x7f80 bit16_0x3ff bit16_0x1f

section \<open>Unary minus\<close>

lemma neg_bits: "(h AND 0x7fff) OR (h XOR 0x8000) = h XOR (0x8000 :: 16 word)"
  by (rule bit_word_eqI) (simp only: bit_and_iff bit_or_iff bit_xor_iff bit16_consts, auto)

lemma neg_low15: "(h XOR 0x8000) AND 0x7fff = h AND (0x7fff :: 16 word)"
  by (rule bit_word_eqI) (simp only: bit_and_iff bit_xor_iff bit16_consts, auto)

lemma neg_ieee_exp: "ieee_exp (h XOR 0x8000) = ieee_exp h"
  unfolding ieee_exp_def
  by (rule bit_word_eqI)
    (simp only: bit_and_iff bit_xor_iff bit_drop_bit_eq o_apply bit16_consts, auto)

lemma neg_ieee_frac: "ieee_frac (h XOR 0x8000) = ieee_frac h"
  unfolding ieee_frac_def
  by (rule bit_word_eqI) (simp only: bit_and_iff bit_xor_iff bit16_consts, auto)

text \<open>
  C9. For every 16-bit pattern, unary negation returns exactly the pattern with the sign bit
  flipped (XOR \<^verbatim>\<open>0x8000\<close>) and no other bit changed: the low 15 bits, hence the exponent
  and fraction fields and the answer of \<^verbatim>\<open>is_nan\<close>, stay as they are; \<open>+0\<close> becomes \<open>-0\<close>
  and back; and negating twice gives the value back.
\<close>

theorem operator_neg_flips_sign_only:
  "operator_uint16_t (operator_neg f) = operator_uint16_t f XOR 0x8000
   \<and> operator_uint16_t (operator_neg f) AND 0x7fff = operator_uint16_t f AND 0x7fff
   \<and> ieee_exp (operator_uint16_t (operator_neg f)) = ieee_exp (operator_uint16_t f)
   \<and> ieee_frac (operator_uint16_t (operator_neg f)) = ieee_frac (operator_uint16_t f)
   \<and> is_nan (operator_neg f) = is_nan f
   \<and> operator_neg fp16_zero = fp16_zero_negative
   \<and> operator_neg fp16_zero_negative = fp16_zero
   \<and> operator_neg (operator_neg f) = f"
  by (simp add: operator_neg_def operator_uint16_t_def float16_t_of_bits_def neg_bits neg_low15
      neg_ieee_exp neg_ieee_frac fp16_zero_def fp16_zero_negative_def is_nan_def xor.assoc)

section \<open>Classification\<close>

lemma unat_and_0x7fff: "unat (h AND (0x7fff :: 16 word)) = unat h mod 32768"
proof -
  have "h AND 0x7fff = take_bit 15 h"
    by (rule bit_word_eqI) (simp only: bit_and_iff bit_take_bit_iff bit16_consts, auto)
  then have "unat (h AND 0x7fff) = take_bit 15 (unat h)"
    by (simp only: unsigned_take_bit_eq)
  then show ?thesis
    by (simp add: take_bit_eq_mod)
qed

lemma unat_and_0x7f80: "unat (h AND (0x7f80 :: 16 word)) = 128 * ((unat h div 128) mod 256)"
proof -
  have "h AND 0x7f80 = push_bit 7 (take_bit 8 (drop_bit 7 h))"
    by (rule bit_word_eqI)
      (simp only: bit_and_iff bit_take_bit_iff bit_push_bit_iff bit_drop_bit_eq o_apply bit16_consts,
        auto simp: possible_bit_word)
  then have "unat (h AND 0x7f80) = take_bit 16 (push_bit 7 (take_bit 8 (drop_bit 7 (unat h))))"
    by (simp only: unsigned_push_bit_eq unsigned_take_bit_eq unat_drop_bit_eq) simp
  also have "\<dots> = 128 * ((unat h div 128) mod 256)"
    by (simp add: take_bit_eq_mod push_bit_eq_mult drop_bit_eq_div)
  finally show ?thesis .
qed

lemma unat_ieee_exp: "unat (ieee_exp h) = (unat h div 1024) mod 32"
proof -
  have "drop_bit 10 h AND 0x1f = take_bit 5 (drop_bit 10 h)"
    by (rule bit_word_eqI) (simp only: bit_and_iff bit_take_bit_iff bit16_consts, auto)
  then have "unat (ieee_exp h) = take_bit 5 (drop_bit 10 (unat h))"
    by (simp only: ieee_exp_def unsigned_take_bit_eq unat_drop_bit_eq)
  then show ?thesis
    by (simp add: take_bit_eq_mod drop_bit_eq_div)
qed

lemma unat_ieee_frac: "unat (ieee_frac h) = unat h mod 1024"
proof -
  have "h AND 0x3ff = take_bit 10 h"
    by (rule bit_word_eqI) (simp only: bit_and_iff bit_take_bit_iff bit16_consts, auto)
  then have "unat (ieee_frac h) = take_bit 10 (unat h)"
    by (simp only: ieee_frac_def unsigned_take_bit_eq)
  then show ?thesis
    by (simp add: take_bit_eq_mod)
qed

text \<open>The predicates as arithmetic on the pattern read as a number.\<close>

lemma is_nan_nat: "is_nan f \<longleftrightarrow> 32640 < unat (data_bits f) mod 32768"
  by (simp add: is_nan_def operator_uint16_t_def word_less_nat_alt unat_and_0x7fff)

lemma is_inf_nat: "is_inf f \<longleftrightarrow> unat (data_bits f) mod 32768 = 32640"
  by (simp add: is_inf_def operator_uint16_t_def word_unat_eq_iff unat_and_0x7fff)

lemma is_finite_nat: "is_finite f \<longleftrightarrow> unat (data_bits f) div 128 mod 256 \<noteq> 255"
  by (simp add: is_finite_def operator_uint16_t_def word_unat_eq_iff unat_and_0x7f80)

lemma is_normal_nat:
  "is_normal f \<longleftrightarrow>
     unat (data_bits f) div 128 mod 256 \<noteq> 255 \<and> unat (data_bits f) div 128 mod 256 \<noteq> 0"
  by (simp add: is_normal_def Let_def operator_uint16_t_def word_unat_eq_iff unat_and_0x7f80)

lemma is_zero_nat: "is_zero f \<longleftrightarrow> unat (data_bits f) mod 32768 = 0"
  by (simp add: is_zero_def operator_uint16_t_def word_unat_eq_iff unat_and_0x7fff)

lemma is_subnormal_nat:
  "is_subnormal f \<longleftrightarrow>
     unat (data_bits f) div 1024 mod 32 = 0 \<and> unat (data_bits f) mod 1024 \<noteq> 0"
  by (simp add: is_subnormal_def operator_uint16_t_def word_unat_eq_iff
      unat_ieee_exp unat_ieee_frac)

lemma nat_finite_iff:
  fixes n :: nat
  shows "n div 128 mod 256 \<noteq> 255 \<longleftrightarrow> \<not> (32640 < n mod 32768 \<or> n mod 32768 = 32640)"
proof -
  define a r where "a = n div 128 mod 256" and "r = n mod 128"
  have split: "n mod 32768 = 128 * a + r"
    unfolding a_def r_def using mod_mult2_eq [of n 128 256] by simp
  have "a < 256" "r < 128"
    by (simp_all add: a_def r_def)
  then show ?thesis
    unfolding split a_def [symmetric] by auto
qed

lemma nat_categories_exhaustive:
  fixes n :: nat
  shows "32640 < n mod 32768 \<or> n mod 32768 = 32640
    \<or> (n div 128 mod 256 \<noteq> 255 \<and> n div 128 mod 256 \<noteq> 0)
    \<or> n mod 32768 = 0 \<or> (n div 1024 mod 32 = 0 \<and> n mod 1024 \<noteq> 0)"
proof -
  define a r e fr where "a = n div 128 mod 256" and "r = n mod 128"
    and "e = n div 1024 mod 32" and "fr = n mod 1024"
  have split: "n mod 32768 = 128 * a + r"
    unfolding a_def r_def using mod_mult2_eq [of n 128 256] by simp
  have "128 * a + r = 1024 * e + fr"
    unfolding split [symmetric] e_def fr_def using mod_mult2_eq [of n 1024 32] by simp
  moreover have "a < 256" "r < 128" "e < 32" "fr < 1024"
    by (simp_all add: a_def r_def e_def fr_def)
  ultimately show ?thesis
    unfolding split a_def [symmetric] e_def [symmetric] fr_def [symmetric] by auto
qed

text \<open>
  The part of the classification property that the predicates do satisfy: \<open>is_finite\<close> is the
  negation of (\<open>is_nan\<close> or \<open>is_inf\<close>), and every pattern falls in at least one of the five
  categories.
\<close>

lemma is_finite_iff: "is_finite f \<longleftrightarrow> \<not> (is_nan f \<or> is_inf f)"
  unfolding is_finite_nat is_nan_nat is_inf_nat by (rule nat_finite_iff)

lemma categories_exhaustive:
  "is_nan f \<or> is_inf f \<or> is_normal f \<or> is_zero f \<or> is_subnormal f"
  unfolding is_normal_nat is_nan_nat is_inf_nat is_zero_nat is_subnormal_nat
  by (rule nat_categories_exhaustive)

text \<open>
  C4. The classification property asks that exactly one of \<open>is_nan\<close>, \<open>is_inf\<close>,
  \<open>is_normal\<close>, zero and subnormal holds of every pattern.  The header's predicates mask with
  \<^verbatim>\<open>0x7f80\<close>, which covers the five exponent bits and the top three fraction bits, so the
  categories overlap: the subnormal pattern
  \<^verbatim>\<open>0x0080\<close> (exponent field 0, fraction \<^verbatim>\<open>0x80\<close>) is both subnormal and \<open>is_normal\<close>.
  The library's own infinity and NaN constants are classified as normal numbers.
\<close>

theorem categories_overlap_at_0x0080:
  "categories (float16_t_of_bits 0x0080) = [False, False, True, False, True]
   \<and> categories fp16_infinity = [False, False, True, False, False]
   \<and> categories fp16_nan = [False, False, True, False, False]"
  by (simp add: categories_def is_nan_def is_inf_def is_normal_def is_zero_def is_subnormal_def
      ieee_exp_def ieee_frac_def operator_uint16_t_def float16_t_of_bits_def
      fp16_infinity_def fp16_nan_def)

text \<open>
  C7. \<^verbatim>\<open>is_nan\<close> applied to the library's own NaN constant \<^verbatim>\<open>fp16_nan\<close> (pattern
  \<^verbatim>\<open>0x7e00\<close>) returns false, and \<^verbatim>\<open>is_inf\<close> applied to \<^verbatim>\<open>fp16_infinity\<close> (pattern
  \<^verbatim>\<open>0x7c00\<close>) returns false: both predicates compare against \<^verbatim>\<open>0x7f80\<close>, and both
  constants lie strictly below it.
\<close>

theorem is_nan_is_inf_reject_own_constants:
  "is_nan fp16_nan = False \<and> is_inf fp16_infinity = False
   \<and> operator_uint16_t fp16_nan = 0x7e00 \<and> operator_uint16_t fp16_infinity = 0x7c00"
  by (simp add: is_nan_def is_inf_def fp16_nan_def fp16_infinity_def
      float16_t_of_bits_def operator_uint16_t_def)

section \<open>Math wrappers\<close>

text \<open>
  C8. \<^verbatim>\<open>fmin\<close> delegates to the same host function as \<^verbatim>\<open>fmax\<close>: for every pair of
  values both wrappers return the narrowed \<^verbatim>\<open>std::fmax\<close> of the widened arguments, whatever
  the host's \<^verbatim>\<open>std::fmin\<close> is.
\<close>

theorem fmin_is_fmax:
  "fmin host f1 f2 = fmax host f1 f2
   \<and> fmin host f1 f2 =
       float16_t_of_float (std_fmax host (operator_float f1) (operator_float f2))
   \<and> fmax host f1 f2 =
       float16_t_of_float (std_fmax host (operator_float f1) (operator_float f2))"
  by (simp add: fmin_def fmax_def make_binary_function_def)

section \<open>Stream extraction\<close>

text \<open>
  C10. When the host's extraction of a \<^verbatim>\<open>float\<close> leaves the stream failed, the target is
  returned bit for bit as it was and the stream's \<^verbatim>\<open>failbit\<close> is set; the target is
  assigned only when the extraction succeeded, and then it is the narrowed parsed value, the
  stream being the one the host returned.
\<close>

theorem operator_extract_failure_keeps_target:
  "(fail (fst (host_extract strm)) \<longrightarrow>
      snd (operator_extract host_extract strm f) = f
      \<and> failbit (fst (operator_extract host_extract strm f))
      \<and> fail (fst (operator_extract host_extract strm f)))
   \<and> (\<not> fail (fst (host_extract strm)) \<longrightarrow>
      snd (operator_extract host_extract strm f) = float16_t_of_float (snd (host_extract strm))
      \<and> fst (operator_extract host_extract strm f) = fst (host_extract strm))"
  by (simp add: operator_extract_def fail_def setstate_failbit_def split: prod.splits)

theorem operator_extract_witness:
  "fail (fst (token_extract
      \<lparr>failbit = False, badbit = False, eofbit = False, rdbuf = [None, Some 0x3f800000]\<rparr>))
   \<and> snd (operator_extract token_extract
        \<lparr>failbit = False, badbit = False, eofbit = False, rdbuf = [None, Some 0x3f800000]\<rparr>
        fp16_nan) = fp16_nan
   \<and> failbit (fst (operator_extract token_extract
        \<lparr>failbit = False, badbit = False, eofbit = False, rdbuf = [None, Some 0x3f800000]\<rparr>
        fp16_nan))
   \<and> \<not> fail (fst (token_extract
        \<lparr>failbit = False, badbit = False, eofbit = False, rdbuf = [Some 0x3f800000]\<rparr>))
   \<and> snd (operator_extract token_extract
        \<lparr>failbit = False, badbit = False, eofbit = False, rdbuf = [Some 0x3f800000]\<rparr>
        fp16_nan) = float16_t_of_bits 0x3c00"
  using operator_extract_failure_keeps_target [of token_extract
      "\<lparr>failbit = False, badbit = False, eofbit = False, rdbuf = [None, Some 0x3f800000]\<rparr>"
      fp16_nan]
    operator_extract_failure_keeps_target [of token_extract
      "\<lparr>failbit = False, badbit = False, eofbit = False, rdbuf = [Some 0x3f800000]\<rparr>"
      fp16_nan]
  by (simp add: token_extract_def fail_def float16_t_of_float_def float16_t_of_bits_def
      float32_to_float16_def to_float16_def Let_def)

section \<open>Narrowing at the range boundaries\<close>

text \<open>
  C1. A finite input whose \<^verbatim>\<open>half_exponent\<close> is at least \<^verbatim>\<open>0x1f\<close> should narrow to a
  signed infinity.  The code tests \<^verbatim>\<open>half_exponent == 0x1f\<close> only.  The input
  \<^verbatim>\<open>131072.0f\<close> (pattern \<^verbatim>\<open>0x48000000\<close>) has \<^verbatim>\<open>half_exponent\<close> \<^verbatim>\<open>0x20\<close>; it
  takes the normal path, where \<^verbatim>\<open>half_exponent << 10\<close> is \<^verbatim>\<open>0x8000\<close>, and the result is
  the pattern of negative zero instead of \<^verbatim>\<open>0x7c00\<close>.
\<close>

theorem float32_to_float16_131072_is_negative_zero:
  "float32_value 0x48000000 = Some 131072
   \<and> 0x48000000 AND 0x7f800000 \<noteq> (0x7f800000 :: float32)
   \<and> half_exponent 0x48000000 = 0x20
   \<and> float32_to_float16 0x48000000 = 0x8000
   \<and> float32_to_float16 0x48000000 \<noteq> 0x7c00"
  by (simp add: float32_value_def half_exponent_def float32_to_float16_def to_float16_def
      Let_def)

text \<open>
  C6 as stated: \<^verbatim>\<open>65520.0\<close> narrows to \<^verbatim>\<open>0x7c00\<close>, the \<^verbatim>\<open>float\<close> nearest to
  \<^verbatim>\<open>5.96e-8\<close> to \<^verbatim>\<open>0x0000\<close> and the \<^verbatim>\<open>float\<close> nearest to \<^verbatim>\<open>6.1e-5\<close> to
  \<^verbatim>\<open>0x0400\<close>.  The three inputs are the patterns \<^verbatim>\<open>0x477ff000\<close>, \<^verbatim>\<open>0x337ffae5\<close>
  and \<^verbatim>\<open>0x387fda40\<close>; the statement fails on the second and on the third.
\<close>

theorem narrow_boundaries_as_stated_counterexample:
  "\<not> (float32_to_float16 0x477ff000 = 0x7c00
      \<and> float32_to_float16 0x337ffae5 = 0x0000
      \<and> float32_to_float16 0x387fda40 = 0x0400)"
  by (simp add: float32_to_float16_def to_float16_def Let_def)

text \<open>
  C6, amended.  \<^verbatim>\<open>65520.0\<close> (pattern \<^verbatim>\<open>0x477ff000\<close>) narrows to \<open>+\<close>infinity
  \<^verbatim>\<open>0x7c00\<close>; the \<^verbatim>\<open>float\<close> nearest to \<^verbatim>\<open>5.96e-8\<close> (pattern \<^verbatim>\<open>0x337ffae5\<close>)
  narrows to the smallest subnormal \<^verbatim>\<open>0x0001\<close>, whose value \<open>2\<^sup>-\<^sup>2\<^sup>4\<close> is the half
  nearest to it; the \<^verbatim>\<open>float\<close> nearest to \<^verbatim>\<open>6.1e-5\<close> (pattern \<^verbatim>\<open>0x387fda40\<close>)
  narrows to the largest subnormal \<^verbatim>\<open>0x03ff\<close>, of value \<open>1023 / 2\<^sup>2\<^sup>4\<close>.
\<close>

theorem narrow_boundaries:
  "float32_value 0x477ff000 = Some 65520
   \<and> float32_to_float16 0x477ff000 = 0x7c00
   \<and> nearest_float32 (596 / 10 ^ 10) 0x337ffae5
   \<and> float32_to_float16 0x337ffae5 = 0x0001
   \<and> float16_value 0x0001 = Some (1 / 2 ^ 24)
   \<and> nearest_float32 (61 / 10 ^ 6) 0x387fda40
   \<and> float32_to_float16 0x387fda40 = 0x03ff
   \<and> float16_value 0x03ff = Some (1023 / 2 ^ 24)"
  by (simp add: float32_to_float16_def to_float16_def nearest_float32_def float32_value_def
      float16_value_def ieee_exp_def ieee_frac_def ieee_sign_def Let_def)

section \<open>Widening of subnormals\<close>

text \<open>
  The loop of \<^verbatim>\<open>float16_to_float32\<close> runs while \<^verbatim>\<open>coef & 0x7f800000\<close> is nonzero.  On
  entry \<^verbatim>\<open>coef\<close> is a 10-bit fraction shifted left by 13, so bits 23 to 30 are clear and
  the loop body is never executed.
\<close>

lemma bit32_0x7f800000: "bit (0x7f800000 :: 32 word) n \<longleftrightarrow> 23 \<le> n \<and> n < 31"
proof -
  have "(0x7f800000 :: 32 word) = push_bit 23 (mask 8)"
    by (simp add: mask_eq_exp_minus_1)
  then show ?thesis
    by (simp only: bit_push_bit_iff bit_mask_iff) (auto simp: possible_bit_word)
qed

lemma coef_below_exponent_bits:
  "push_bit 13 (ucast (input AND (0x3ff :: 16 word)) :: 32 word) AND 0x7f800000 = 0"
  by (rule bit_word_eqI)
    (simp only: bit_and_iff bit_push_bit_iff bit_ucast_iff bit16_consts bit32_0x7f800000,
      auto)

lemma float16_to_float32_loop_skipped:
  "float16_to_float32_loop (push_bit 13 (ucast (input AND (0x3ff :: 16 word)))) exponent =
     (push_bit 13 (ucast (input AND 0x3ff)), exponent)"
  by (subst float16_to_float32_loop.simps) (simp only: coef_below_exponent_bits, simp)

text \<open>
  C2. Widening should return the exact value of every pattern, subnormals being
  renormalised.  On the smallest subnormal \<^verbatim>\<open>0x0001\<close>, of value \<open>2\<^sup>-\<^sup>2\<^sup>4\<close>, the code
  returns the pattern \<^verbatim>\<open>0x38802000\<close>, of value \<open>2\<^sup>-\<^sup>1\<^sup>4 + 2\<^sup>-\<^sup>2\<^sup>4\<close>: the fraction is
  not shifted and the exponent field is that of the smallest normal number.
\<close>

theorem float16_to_float32_min_subnormal:
  "float16_value 0x0001 = Some (1 / 2 ^ 24)
   \<and> float16_to_float32 0x0001 = 0x38802000
   \<and> float32_value (float16_to_float32 0x0001) = Some (1 / 2 ^ 14 + 1 / 2 ^ 24)
   \<and> float32_value (float16_to_float32 0x0001) \<noteq> float16_value 0x0001"
  by (simp add: float16_to_float32_def float32_value_def float16_value_def
      ieee_exp_def ieee_frac_def ieee_sign_def Let_def)

text \<open>
  C3. Narrowing the widened value should give back every finite pattern, subnormals
  included.  The round trip of the smallest subnormal \<^verbatim>\<open>0x0001\<close> returns \<^verbatim>\<open>0x0401\<close>,
  a normal number.
\<close>

theorem round_trip_min_subnormal:
  "ieee_exp 0x0001 \<noteq> 0x1f
   \<and> float32_to_float16 (float16_to_float32 0x0001) = 0x0401
   \<and> float32_to_float16 (float16_to_float32 0x0001) \<noteq> 0x0001"
  by (simp add: float16_to_float32_def float32_to_float16_def to_float16_def ieee_exp_def
      Let_def)

section \<open>Rounding when narrowing\<close>

text \<open>
  The second mask of the code's test, \<^verbatim>\<open>3 * round_bit - 1\<close>, selects the bit above the
  round bit (the lowest kept bit) and all the bits below the round bit, and leaves the round
  bit itself out.
\<close>

lemma three_round_bit_mask:
  "3 * (2 :: 32 word) ^ k - 1 = 2 ^ Suc k OR mask k"
proof -
  have "(2 :: 32 word) ^ Suc k AND mask k = 0"
    by (rule bit_word_eqI) (auto simp: bit_simps)
  then have "(2 :: 32 word) ^ Suc k OR mask k = 2 ^ Suc k + mask k"
    by (simp add: disjunctive_add_eq_or)
  also have "\<dots> = 3 * 2 ^ k - 1"
    by (simp add: mask_eq_exp_minus_1)
  finally show ?thesis by simp
qed

lemma round_up_test_bits:
  fixes c :: "32 word"
  shows "round_up_test c (push_bit k 1) \<longleftrightarrow> bit c k \<and> (bit c (Suc k) \<or> take_bit k c \<noteq> 0)"
proof -
  have "c AND (2 ^ Suc k OR mask k) = (c AND 2 ^ Suc k) OR take_bit k c"
    by (simp add: bit.conj_disj_distrib take_bit_eq_mask)
  then have "c AND (3 * 2 ^ k - 1) \<noteq> 0 \<longleftrightarrow> bit c (Suc k) \<or> take_bit k c \<noteq> 0"
    unfolding three_round_bit_mask by (simp only: or_eq_0_iff and_exp_eq_0_iff_not_bit) simp
  moreover have "c AND 2 ^ k \<noteq> 0 \<longleftrightarrow> bit c k"
    by (simp only: and_exp_eq_0_iff_not_bit) simp
  ultimately show ?thesis
    by (simp add: round_up_test_def push_bit_eq_mult)
qed

lemma nearest_even_up_bits:
  fixes n :: nat
  shows "nearest_even_up n k \<longleftrightarrow> bit n k \<and> (bit n (Suc k) \<or> take_bit k n \<noteq> 0)"
proof -
  define t q :: nat where "t = take_bit k n" and "q = 2 ^ k"
  have low: "t < q"
    by (simp add: t_def q_def)
  have discarded: "n mod 2 ^ Suc k = q * of_bool (bit n k) + t"
    using take_bit_Suc_from_most [of k n] by (simp only: take_bit_eq_mod t_def q_def)
  have kept: "odd (n div 2 ^ Suc k) \<longleftrightarrow> bit n (Suc k)"
    by (simp only: bit_iff_odd)
  have "nearest_even_up n k \<longleftrightarrow>
      q < q * of_bool (bit n k) + t \<or> (q * of_bool (bit n k) + t = q \<and> bit n (Suc k))"
    by (simp only: nearest_even_up_def Let_def discarded kept q_def)
  also have "\<dots> \<longleftrightarrow> bit n k \<and> (bit n (Suc k) \<or> t \<noteq> 0)"
    using low by (cases "bit n k") auto
  finally show ?thesis
    by (simp only: t_def)
qed

lemma round_up_test_iff_nearest_even_up:
  fixes c :: "32 word"
  assumes "Suc k < 32"
  shows "round_up_test c (push_bit k 1) \<longleftrightarrow> nearest_even_up (unat c) k"
proof -
  have "bit (unat c) k \<longleftrightarrow> bit c k" "bit (unat c) (Suc k) \<longleftrightarrow> bit c (Suc k)"
    using assms by (simp_all add: bit_unsigned_iff)
  moreover have "take_bit k (unat c) = 0 \<longleftrightarrow> take_bit k c = 0"
    by (simp only: unsigned_take_bit_eq [symmetric] unsigned_eq_0_iff)
  ultimately show ?thesis
    by (simp only: round_up_test_bits nearest_even_up_bits)
qed


lemma word16_of_take_bit_32: "(word_of_int (take_bit 32 k) :: 16 word) = word_of_int k"
  by (simp add: word_of_int_eq_iff)

lemma ucast_add_down: "(ucast (x + y :: 32 word) :: 16 word) = ucast x + ucast y"
proof -
  have "(ucast (x + y) :: 16 word) = word_of_int (take_bit 32 (uint x + uint y))"
    by (simp add: ucast_eq uint_word_ariths take_bit_eq_mod)
  also have "\<dots> = word_of_int (uint x + uint y)"
    by (rule word16_of_take_bit_32)
  also have "\<dots> = ucast x + ucast y"
    by simp
  finally show ?thesis .
qed

lemma to_float16_succ: "to_float16 (x + 1) = to_float16 x + 1"
  by (simp add: to_float16_def ucast_add_down)

lemma bit32_0x80000000: "bit (0x80000000 :: 32 word) n \<longleftrightarrow> n = 31"
  using bit_exp_iff [where ?'a = "32 word" and m = 31 and n = n] by auto

lemma bit32_0x7fffff: "bit (0x7fffff :: 32 word) n \<longleftrightarrow> n < 23"
  using bit_mask_iff [where ?'a = "32 word" and m = 23 and n = n]
  by (auto simp: mask_eq_exp_minus_1)

lemma bit32_0x800000: "bit (0x800000 :: 32 word) n \<longleftrightarrow> n = 23"
  using bit_exp_iff [where ?'a = "32 word" and m = 23 and n = n] by auto

lemma half_sign_disjoint:
  fixes y :: "32 word"
  assumes "unat y < 2 ^ 15"
  shows "drop_bit 16 (input AND 0x80000000) AND y = 0"
proof -
  have "\<not> bit (unat y) 15"
    using assms by (simp add: bit_iff_odd)
  then have "\<not> bit y 15"
    by (simp add: bit_unsigned_iff)
  then show ?thesis
    by (intro bit_word_eqI)
      (simp only: bit_and_iff bit_drop_bit_eq o_apply bit32_0x80000000, auto)
qed

lemma half_sign_or_succ:
  fixes y :: "32 word"
  assumes "unat y < 2 ^ 10"
  shows "drop_bit 16 (input AND 0x80000000) OR (y + 1) =
         (drop_bit 16 (input AND 0x80000000) OR y) + 1"
proof -
  have "unat (y + 1) < 2 ^ 15"
    using assms by (simp add: unat_word_ariths)
  then have "drop_bit 16 (input AND 0x80000000) AND (y + 1) = 0"
    by (rule half_sign_disjoint)
  moreover have "drop_bit 16 (input AND 0x80000000) AND y = 0"
    using assms by (intro half_sign_disjoint) simp
  ultimately show ?thesis
    by (simp add: disjunctive_add_eq_or [symmetric])
qed

lemma subnormal_significand_less:
  "unat ((input AND 0x7fffff) OR (0x800000 :: 32 word)) < 2 ^ 24"
proof -
  define c where "c = (input AND 0x7fffff) OR (0x800000 :: 32 word)"
  have "c = take_bit 24 c"
    unfolding c_def
    by (rule bit_word_eqI)
      (simp only: bit_and_iff bit_or_iff bit_take_bit_iff bit32_0x7fffff bit32_0x800000, auto)
  then have "unat c = take_bit 24 (unat c)"
    by (simp only: unsigned_take_bit_eq [symmetric])
  moreover have "take_bit 24 (unat c) < 2 ^ 24"
    by (rule take_bit_nat_less_exp)
  ultimately show ?thesis
    unfolding c_def by (simp only:)
qed

lemma subnormal_half_coef_less:
  assumes "13 \<le> k"
  shows "unat (drop_bit (Suc k) ((input AND 0x7fffff) OR (0x800000 :: 32 word))) < 2 ^ 10"
proof -
  define c where "c = unat ((input AND 0x7fffff) OR (0x800000 :: 32 word))"
  have "c < 2 ^ 24"
    unfolding c_def by (rule subnormal_significand_less)
  have "(2 :: nat) ^ 14 \<le> 2 ^ Suc k"
    using assms by (intro power_increasing) simp_all
  then have "c div 2 ^ Suc k \<le> c div 2 ^ 14"
    by (intro div_le_mono2) simp_all
  also have "\<dots> < 2 ^ 10"
    using \<open>c < 2 ^ 24\<close> by simp
  finally have "drop_bit (Suc k) c < 2 ^ 10"
    by (simp only: drop_bit_eq_div)
  then show ?thesis
    by (simp only: unat_drop_bit_eq c_def)
qed

lemma round_pos_range:
  assumes "- 10 \<le> half_exponent input"
  shows "Suc (round_pos input) < 32"
    and "half_exponent input \<le> 0 \<Longrightarrow> 13 \<le> round_pos input"
  using assms by (auto simp: round_pos_def)

lemma rounded_succ:
  assumes "- 10 \<le> half_exponent input"
  shows "rounded input True = rounded input False + 1"
proof (cases "half_exponent input \<le> 0")
  case True
  define hc where "hc = drop_bit (Suc (round_pos input)) ((input AND 0x7fffff) OR (0x800000 :: 32 word))"
  from True have "13 \<le> round_pos input"
    using assms by (simp add: round_pos_range(2))
  then have "unat hc < 2 ^ 10"
    unfolding hc_def by (rule subnormal_half_coef_less)
  then have "drop_bit 16 (input AND 0x80000000) OR (hc + 1) =
         (drop_bit 16 (input AND 0x80000000) OR hc) + 1"
    by (rule half_sign_or_succ)
  then have "to_float16 (drop_bit 16 (input AND 0x80000000) OR (hc + 1)) =
      to_float16 (drop_bit 16 (input AND 0x80000000) OR hc) + 1"
    by (simp only: to_float16_succ)
  with True show ?thesis
    by (simp only: rounded_def Let_def significand_def hc_def if_True if_False add_0_right)
next
  case False
  then show ?thesis
    by (simp only: rounded_def Let_def to_float16_succ if_True if_False add_0_right)
qed

lemma rounded_if:
  "rounded input up = (if up then rounded input True else rounded input False)"
  by (cases up) simp_all

lemma float32_to_float16_rounded:
  assumes finite: "input AND 0x7f800000 \<noteq> 0x7f800000"
    and no_overflow_branch: "half_exponent input \<noteq> 0x1f"
    and representable: "- 10 \<le> half_exponent input"
  shows "float32_to_float16 input =
           rounded input (round_up_test (significand input) (round_bit input))"
proof -
  have unfolded: "float32_to_float16 input =
    (if half_exponent input \<le> 0 then
       (if (input AND 0x7fffff OR 0x800000) AND push_bit (nat (13 - half_exponent input)) 1 \<noteq> 0
           \<and> (input AND 0x7fffff OR 0x800000)
                AND (3 * push_bit (nat (13 - half_exponent input)) 1 - 1) \<noteq> 0
        then to_float16 (drop_bit 16 (input AND 0x80000000)
               OR (drop_bit (nat (14 - half_exponent input)) (input AND 0x7fffff OR 0x800000) + 1))
        else to_float16 (drop_bit 16 (input AND 0x80000000)
               OR drop_bit (nat (14 - half_exponent input)) (input AND 0x7fffff OR 0x800000)))
     else
       (if (input AND 0x7fffff) AND 0x1000 \<noteq> 0 \<and> (input AND 0x7fffff) AND (3 * 0x1000 - 1) \<noteq> 0
        then to_float16 ((drop_bit 16 (input AND 0x80000000)
               OR push_bit 10 (word_of_int (half_exponent input))
               OR drop_bit 13 (input AND 0x7fffff)) + 1)
        else to_float16 (drop_bit 16 (input AND 0x80000000)
               OR push_bit 10 (word_of_int (half_exponent input))
               OR drop_bit 13 (input AND 0x7fffff))))"
    using finite no_overflow_branch representable
    unfolding float32_to_float16_def Let_def half_exponent_def [symmetric]
    by (simp only: if_False not_less [symmetric] if_True)
  show ?thesis
  proof (cases "half_exponent input \<le> 0")
    case True
    with representable
    have shift: "nat (14 - half_exponent input) = Suc (nat (13 - half_exponent input))"
      by simp
    show ?thesis
      unfolding unfolded shift
      by (subst rounded_if)
        (simp only: rounded_def round_up_test_def round_bit_def round_pos_def
          significand_def Let_def True if_True if_False add_0_right)
  next
    case False
    have numerals: "push_bit 12 1 = (0x1000 :: 32 word)" "Suc 12 = 13"
      by simp_all
    show ?thesis
      unfolding unfolded
      by (subst rounded_if)
        (simp only: rounded_def round_up_test_def round_bit_def round_pos_def
          significand_def Let_def False numerals if_True if_False add_0_right)
  qed
qed

text \<open>
  C5 as stated: the mantissa is incremented exactly when
  \<^verbatim>\<open>(significand & round_bit) != 0\<close> and \<^verbatim>\<open>(significand & (2*round_bit - 1)) != 0\<close>.
  On the input \<^verbatim>\<open>0x3f801000\<close> (\<open>1 + 2\<^sup>-\<^sup>1\<^sup>1\<close>, halfway between the halves
  \<^verbatim>\<open>0x3c00\<close> and \<^verbatim>\<open>0x3c01\<close>) that test holds, yet the code returns the pattern without
  the increment, as ties-to-even asks.
\<close>

theorem claimed_round_up_test_counterexample:
  "claimed_round_up_test (significand 0x3f801000) (round_bit 0x3f801000)
   \<and> float32_to_float16 0x3f801000 = rounded 0x3f801000 False
   \<and> float32_to_float16 0x3f801000 \<noteq> rounded 0x3f801000 True
   \<and> \<not> nearest_even_up (unat (significand 0x3f801000)) (round_pos 0x3f801000)"
  by (simp add: claimed_round_up_test_def float32_to_float16_def half_exponent_def rounded_def
      significand_def round_pos_def round_bit_def nearest_even_up_def to_float16_def Let_def)

text \<open>
  C5, amended.  For every finite input on one of the two rounding paths as they are
  designed (\<open>half_exponent\<close> at least \<open>-10\<close> and below \<^verbatim>\<open>0x1f\<close>; nothing is said of
  inputs beyond the overflow threshold), the result is the truncated pattern, incremented by one exactly when \<^verbatim>\<open>(significand & round_bit) != 0\<close> and
  \<^verbatim>\<open>(significand & (3*round_bit - 1)) != 0\<close>, where on the subnormal path the significand
  is the 24-bit value with the implicit bit and the round bit is
  \<^verbatim>\<open>1 << (13 - half_exponent)\<close>, and on the normal path the significand is the 23-bit
  fraction and the round bit is \<^verbatim>\<open>0x1000\<close>.  That test is round-to-nearest with ties to
  even: it holds exactly when the discarded bits are more than half a unit of the kept
  part, or exactly half a unit with the kept part odd.
\<close>

theorem float32_to_float16_rounds_to_nearest_even:
  assumes "input AND 0x7f800000 \<noteq> 0x7f800000"
    and "- 10 \<le> half_exponent input"
    and "half_exponent input < 0x1f"
  shows "float32_to_float16 input =
           rounded input (round_up_test (significand input) (round_bit input))
    \<and> rounded input True = rounded input False + 1
    \<and> (float32_to_float16 input = rounded input True
         \<longleftrightarrow> round_up_test (significand input) (round_bit input))
    \<and> (round_up_test (significand input) (round_bit input)
         \<longleftrightarrow> nearest_even_up (unat (significand input)) (round_pos input))"
proof -
  from assms(3) have "half_exponent input \<noteq> 0x1f"
    by simp
  with assms(1) have result: "float32_to_float16 input =
      rounded input (round_up_test (significand input) (round_bit input))"
    using assms(2) by (rule float32_to_float16_rounded)
  have succ: "rounded input True = rounded input False + 1"
    using assms(2) by (rule rounded_succ)
  then have "rounded input False \<noteq> rounded input True"
    by simp
  with result have "float32_to_float16 input = rounded input True
      \<longleftrightarrow> round_up_test (significand input) (round_bit input)"
    by (cases "round_up_test (significand input) (round_bit input)") simp_all
  moreover have "round_up_test (significand input) (round_bit input)
      \<longleftrightarrow> nearest_even_up (unat (significand input)) (round_pos input)"
    unfolding round_bit_def
    using assms(2) by (intro round_up_test_iff_nearest_even_up round_pos_range(1))
  ultimately show ?thesis
    using result succ by blast
qed

theorem float32_to_float16_rounds_to_nearest_even_witness:
  "0x3f803000 AND 0x7f800000 \<noteq> (0x7f800000 :: float32)
   \<and> - 10 \<le> half_exponent 0x3f803000 \<and> half_exponent 0x3f803000 < 0x1f
   \<and> float32_to_float16 0x3f803000 = rounded 0x3f803000 True
   \<and> rounded 0x3f803000 True = 0x3c02
   \<and> nearest_even_up (unat (significand 0x3f803000)) (round_pos 0x3f803000)
   \<and> 0x33000000 AND 0x7f800000 \<noteq> (0x7f800000 :: float32)
   \<and> - 10 \<le> half_exponent 0x33000000 \<and> half_exponent 0x33000000 < 0x1f
   \<and> float32_to_float16 0x33000000 = rounded 0x33000000 False
   \<and> rounded 0x33000000 False = 0x0000
   \<and> \<not> nearest_even_up (unat (significand 0x33000000)) (round_pos 0x33000000)"
  using float32_to_float16_rounds_to_nearest_even [of "0x3f803000"]
    float32_to_float16_rounds_to_nearest_even [of "0x33000000"]
  by (simp add: half_exponent_def rounded_def significand_def round_pos_def round_bit_def
      round_up_test_def nearest_even_up_def to_float16_def Let_def)

section \<open>Widening and the round trip, case by case\<close>

text \<open>
  What the two conversions do on each class of finite patterns: on normal numbers and on the
  two zeros widening is exact and narrowing gives the pattern back; on subnormals widening
  adds the implicit bit of a normal number and the round trip returns a normal pattern.  On
  the overflow branch itself, \<^verbatim>\<open>half_exponent == 0x1f\<close>, narrowing returns the signed
  infinity.
\<close>

lemma float32_to_float16_overflow_exact:
  assumes "input AND 0x7f800000 \<noteq> 0x7f800000" and "half_exponent input = 0x1f"
  shows "float32_to_float16 input = to_float16 (drop_bit 16 (input AND 0x80000000) OR 0x7c00)"
  using assms unfolding float32_to_float16_def Let_def half_exponent_def [symmetric]
  by (simp only: if_False if_True simp_thms)

lemma bit16_0x7c00: "bit (0x7c00 :: 16 word) n \<longleftrightarrow> 10 \<le> n \<and> n < 15"
proof -
  have "(0x7c00 :: 16 word) = push_bit 10 (mask 5)"
    by (simp add: mask_eq_exp_minus_1)
  then show ?thesis
    by (simp only: bit_push_bit_iff bit_mask_iff) (auto simp: possible_bit_word)
qed

text \<open>The three fields as \<^verbatim>\<open>float16_to_float32\<close> extracts them, bit by bit.\<close>

lemma bit_widen_sign:
  "bit (push_bit 16 (ucast (input AND (0x8000 :: 16 word))) :: 32 word) n
     \<longleftrightarrow> n = 31 \<and> bit input 15"
  by (simp only: bit_push_bit_iff bit_ucast_iff bit_and_iff bit16_consts)
    (auto simp: possible_bit_word)

lemma bit_widen_exponent:
  "bit (drop_bit 10 (ucast (input AND (0x7c00 :: 16 word))) :: 32 word) n
     \<longleftrightarrow> n < 5 \<and> bit input (n + 10)"
  by (simp only: bit_drop_bit_eq o_apply bit_ucast_iff bit_and_iff bit16_0x7c00)
    (auto simp: ac_simps)

lemma bit_widen_coef:
  "bit (push_bit 13 (ucast (input AND (0x3ff :: 16 word))) :: 32 word) n
     \<longleftrightarrow> 13 \<le> n \<and> n < 23 \<and> bit input (n - 13)"
  by (simp only: bit_push_bit_iff bit_ucast_iff bit_and_iff bit16_consts)
    (auto simp: possible_bit_word)

lemma widen_exponent_eq:
  "drop_bit 10 (ucast (input AND (0x7c00 :: 16 word)) :: 32 word) = ucast (ieee_exp input)"
  unfolding ieee_exp_def
  by (rule bit_word_eqI)
    (simp only: bit_widen_exponent,
      simp only: bit_and_iff bit_drop_bit_eq o_apply bit_ucast_iff bit16_consts,
      auto simp: ac_simps)

lemma unat_ucast_up: "unat (ucast (x :: 16 word) :: 32 word) = unat x"
proof -
  have "unat x < 2 ^ 32"
    using unsigned_less [of x, where ?'a = nat] by simp
  then show ?thesis
    by (simp add: unsigned_ucast_eq take_bit_nat_eq_self_iff)
qed

lemma ucast_up_eq_iff: "(ucast (x :: 16 word) :: 32 word) = ucast y \<longleftrightarrow> x = y"
  by (simp only: word_unat_eq_iff unat_ucast_up)

lemma widen_exponent_tests:
  "drop_bit 10 (ucast (input AND (0x7c00 :: 16 word)) :: 32 word) = 0x1f \<longleftrightarrow> ieee_exp input = 0x1f"
  "drop_bit 10 (ucast (input AND (0x7c00 :: 16 word)) :: 32 word) = 0 \<longleftrightarrow> ieee_exp input = 0"
  using ucast_up_eq_iff [of "ieee_exp input" "0x1f"] ucast_up_eq_iff [of "ieee_exp input" 0]
  by (simp_all add: widen_exponent_eq)

lemma unat_widen_coef:
  "unat (push_bit 13 (ucast (input AND (0x3ff :: 16 word))) :: 32 word) =
     8192 * unat (ieee_frac input)"
proof -
  define f where "f = unat (ieee_frac input)"
  have "f < 1024"
    by (simp add: f_def unat_ieee_frac)
  then have "push_bit 13 f < 2 ^ 32"
    by (simp add: push_bit_eq_mult)
  then have "take_bit 32 (push_bit 13 f) = push_bit 13 f"
    by (rule take_bit_nat_eq_self)
  moreover have "unat (push_bit 13 (ucast (ieee_frac input)) :: 32 word) =
      take_bit 32 (push_bit 13 f)"
    unfolding f_def by (simp only: unsigned_push_bit_eq unat_ucast_up) simp
  ultimately have "unat (push_bit 13 (ucast (ieee_frac input)) :: 32 word) = push_bit 13 f"
    by (simp only:)
  then show ?thesis
    by (simp only: ieee_frac_def [symmetric] f_def push_bit_eq_mult) simp
qed

lemma widen_coef_test:
  "push_bit 13 (ucast (input AND (0x3ff :: 16 word)) :: 32 word) = 0 \<longleftrightarrow> ieee_frac input = 0"
  using unat_widen_coef [of input] by (simp add: word_unat_eq_iff)

lemma widen_coef_masked:
  "push_bit 13 (ucast (input AND (0x3ff :: 16 word)) :: 32 word) AND 0x7fffff =
     push_bit 13 (ucast (input AND 0x3ff))"
  by (rule bit_word_eqI) (simp only: bit_and_iff bit_widen_coef bit32_0x7fffff, auto)

lemma float16_to_float32_normal:
  assumes "ieee_exp h \<noteq> 0" and "ieee_exp h \<noteq> 0x1f"
  shows "float16_to_float32 h =
     push_bit 16 (ucast (h AND 0x8000)) OR push_bit 23 (ucast (ieee_exp h) + 0x70)
       OR push_bit 13 (ucast (ieee_frac h))"
  using assms unfolding float16_to_float32_def Let_def
  by (simp only: widen_exponent_tests if_False)
    (simp only: widen_exponent_eq ieee_frac_def)

lemma float16_to_float32_zero:
  assumes "ieee_exp h = 0" and "ieee_frac h = 0"
  shows "float16_to_float32 h = push_bit 16 (ucast (h AND 0x8000))"
  using assms unfolding float16_to_float32_def Let_def
  by (simp only: widen_exponent_tests widen_coef_test if_False if_True simp_thms)
     simp

text \<open>Every subnormal is widened without renormalisation.\<close>

lemma float16_to_float32_subnormal:
  assumes "ieee_exp h = 0" and "ieee_frac h \<noteq> 0"
  shows "float16_to_float32 h =
     push_bit 16 (ucast (h AND 0x8000)) OR 0x38800000 OR push_bit 13 (ucast (ieee_frac h))"
proof -
  have "drop_bit 10 (ucast (h AND 0x7c00) :: 32 word) = 0"
    using assms(1) by (simp only: widen_exponent_tests)
  then show ?thesis
    using assms unfolding float16_to_float32_def Let_def
    by (simp only: widen_coef_test float16_to_float32_loop_skipped widen_coef_masked
        if_False if_True simp_thms prod.case)
      (simp add: ieee_frac_def)
qed

lemma bit_above_unat_bound:
  fixes x :: "32 word"
  assumes "unat x < 2 ^ k" and "k \<le> n"
  shows "\<not> bit x n"
proof -
  have "(2 :: nat) ^ k \<le> 2 ^ n"
    using assms(2) by (intro power_increasing) simp_all
  with assms(1) have "unat x < 2 ^ n"
    by (rule less_le_trans)
  then have "unat x div 2 ^ n = 0"
    by simp
  then have "\<not> bit (unat x) n"
    by (simp add: bit_iff_odd)
  then show ?thesis
    by (simp add: bit_unsigned_iff)
qed

text \<open>
  A binary32 pattern assembled from a sign \<open>s\<close> in bit 31, an exponent field \<open>x\<close> below 256
  and a fraction \<open>c\<close> in the bits 13 to 22, as \<^verbatim>\<open>float16_to_float32\<close> does, and what the
  masks of \<^verbatim>\<open>float32_to_float16\<close> read back from it.
\<close>

lemma assembled_fields:
  fixes x :: "32 word" and h :: "16 word"
  assumes "unat x < 2 ^ 8"
  defines "w \<equiv> push_bit 16 (ucast (h AND (0x8000 :: 16 word))) OR push_bit 23 x
      OR push_bit 13 (ucast (h AND (0x3ff :: 16 word)))"
  shows "w AND 0x80000000 = push_bit 16 (ucast (h AND 0x8000))"
    and "w AND 0x7f800000 = push_bit 23 x"
    and "w AND 0x7fffff = push_bit 13 (ucast (h AND 0x3ff))"
    and "drop_bit 23 (push_bit 23 x) = x"
proof -
  have high: "n < 8" if "bit x n" for n
    using bit_above_unat_bound [OF assms(1), of n] that by (cases "8 \<le> n") simp_all
  show "w AND 0x80000000 = push_bit 16 (ucast (h AND 0x8000))"
    unfolding w_def
    by (rule bit_word_eqI)
      (simp only: bit_and_iff bit_or_iff bit_widen_sign bit_widen_coef bit32_0x80000000,
        simp only: bit_push_bit_iff, auto dest: high)
  show "w AND 0x7f800000 = push_bit 23 x"
    unfolding w_def
    by (rule bit_word_eqI)
      (simp only: bit_and_iff bit_or_iff bit_widen_sign bit_widen_coef bit32_0x7f800000,
        simp only: bit_push_bit_iff, auto dest: high)
  show "w AND 0x7fffff = push_bit 13 (ucast (h AND 0x3ff))"
    unfolding w_def
    by (rule bit_word_eqI)
      (simp only: bit_and_iff bit_or_iff bit_widen_sign bit_widen_coef bit32_0x7fffff,
        simp only: bit_push_bit_iff, auto)
  show "drop_bit 23 (push_bit 23 x) = x"
    by (rule bit_word_eqI)
      (simp only: bit_drop_bit_eq o_apply bit_push_bit_iff, auto simp: possible_bit_word dest: high)
qed

lemma normal_exponent_range:
  assumes "ieee_exp h \<noteq> 0" and "ieee_exp h \<noteq> 0x1f"
  shows "0 < unat (ieee_exp h)" and "unat (ieee_exp h) < 31"
proof -
  have "unat (ieee_exp h) < 32"
    by (simp add: unat_ieee_exp)
  moreover have "unat (ieee_exp h) \<noteq> 31" "unat (ieee_exp h) \<noteq> 0"
    using assms by (simp_all add: word_unat_eq_iff)
  ultimately show "0 < unat (ieee_exp h)" and "unat (ieee_exp h) < 31"
    by simp_all
qed

lemma rebiased_exponent:
  fixes h :: "16 word"
  defines "x \<equiv> (ucast (ieee_exp h) :: 32 word) + 0x70"
  shows "unat x = unat (ieee_exp h) + 112"
    and "sint (x - 127) + 15 = int (unat (ieee_exp h))"
proof -
  define e where "e = unat (ieee_exp h)"
  have "e < 32"
    by (simp add: e_def unat_ieee_exp)
  then show unat_x: "unat x = e + 112"
    unfolding x_def e_def by (simp add: unat_word_ariths unat_ucast_up)
  have "x = word_of_nat (unat x)"
    by simp
  then have "x = word_of_int (int e + 112)"
    unfolding unat_x by simp
  then have "x - 127 = word_of_int (int e - 15)"
    by simp
  then have "sint (x - 127) = signed_take_bit 31 (int e - 15)"
    by (simp only: sint_sbintrunc') simp
  also have "\<dots> = int e - 15"
    using \<open>e < 32\<close> by (intro signed_take_bit_int_eq_self) simp_all
  finally show "sint (x - 127) + 15 = int e"
    by simp
qed

lemma reassembled_pattern:
  fixes h :: "16 word"
  shows "to_float16
     (drop_bit 16 (push_bit 16 (ucast (h AND 0x8000)))
      OR push_bit 10 (drop_bit 10 (ucast (h AND 0x7c00)))
      OR drop_bit 13 (push_bit 13 (ucast (h AND 0x3ff)))) = h"
proof (unfold to_float16_def, rule bit_word_eqI)
  fix n
  assume "n < LENGTH(16)"
  then have "n < 10 \<or> (10 \<le> n \<and> n < 15) \<or> n = 15"
    by auto
  then show "bit (ucast
       (drop_bit 16 (push_bit 16 (ucast (h AND 0x8000)))
        OR push_bit 10 (drop_bit 10 (ucast (h AND 0x7c00)))
        OR drop_bit 13 (push_bit 13 (ucast (h AND 0x3ff))) :: 32 word) :: 16 word) n
      \<longleftrightarrow> bit h n"
    by (simp only: bit_ucast_iff bit_or_iff bit_drop_bit_eq o_apply bit_widen_sign
        bit_widen_coef, simp only: bit_push_bit_iff bit_widen_exponent)
      (auto simp: possible_bit_word)
qed

lemma round_trip_normal:
  assumes "ieee_exp h \<noteq> 0" and "ieee_exp h \<noteq> 0x1f"
  shows "float32_to_float16 (float16_to_float32 h) = h"
proof -
  define x where "x = (ucast (ieee_exp h) :: 32 word) + 0x70"
  define w where "w = float16_to_float32 h"
  have w: "w = push_bit 16 (ucast (h AND 0x8000)) OR push_bit 23 x
      OR push_bit 13 (ucast (h AND 0x3ff))"
    unfolding w_def x_def using assms by (simp only: float16_to_float32_normal ieee_frac_def simp_thms)
  have e: "0 < unat (ieee_exp h)" "unat (ieee_exp h) < 31"
    using assms by (rule normal_exponent_range)+
  have unat_x: "unat x = unat (ieee_exp h) + 112"
    unfolding x_def by (rule rebiased_exponent)
  then have small: "unat x < 2 ^ 8"
    using e by simp
  note fields = assembled_fields(1-3) [where h = h, OF small, folded w] assembled_fields(4) [OF small]
  have he: "half_exponent w = int (unat (ieee_exp h))"
    unfolding half_exponent_def fields unfolding x_def by (rule rebiased_exponent)
  have "x \<noteq> 0xff"
    using unat_x e by (auto simp: word_unat_eq_iff)
  have finite: "w AND 0x7f800000 \<noteq> 0x7f800000"
  proof
    assume "w AND 0x7f800000 = 0x7f800000"
    then have "drop_bit 23 (push_bit 23 x) = drop_bit 23 (0x7f800000 :: 32 word)"
      by (simp only: fields)
    then have "x = 0xff"
      unfolding fields by simp
    with \<open>x \<noteq> 0xff\<close> show False ..
  qed
  have path: "\<not> half_exponent w \<le> 0" "half_exponent w \<noteq> 0x1f" "- 10 \<le> half_exponent w"
    unfolding he using e by linarith+
  have "\<not> bit (push_bit 13 (ucast (h AND 0x3ff)) :: 32 word) 12"
    by (simp only: bit_widen_coef) simp
  then have no_round: "\<not> round_up_test (significand w) (round_bit w)"
    using path(1) by (simp only: round_up_test_bits round_bit_def round_pos_def significand_def
        fields if_False simp_thms)
  have exponent_back: "(word_of_int (half_exponent w) :: 32 word) = drop_bit 10 (ucast (h AND 0x7c00))"
    by (simp only: he widen_exponent_eq) simp
  have "float32_to_float16 w = rounded w False"
    using float32_to_float16_rounded [OF finite path(2,3)] no_round by (simp only:)
  also have "\<dots> = to_float16
     (drop_bit 16 (push_bit 16 (ucast (h AND 0x8000)))
      OR push_bit 10 (drop_bit 10 (ucast (h AND 0x7c00)))
      OR drop_bit 13 (push_bit 13 (ucast (h AND 0x3ff))))"
    using path(1)
    by (simp only: rounded_def Let_def round_pos_def significand_def fields exponent_back
        if_False add_0_right) simp
  also have "\<dots> = h"
    by (rule reassembled_pattern)
  finally show ?thesis
    unfolding w_def .
qed

lemma zero_fields_bits:
  assumes "ieee_exp h = 0" and "ieee_frac h = 0"
    and "bit h n"
  shows "n = 15"
proof -
  have "\<not> bit (ieee_frac h) n" "\<not> bit (ieee_exp h) (n - 10)"
    unfolding assms(1,2) by simp_all
  then have "\<not> (n < 10 \<and> bit h n)" "\<not> (n - 10 < 5 \<and> bit h (10 + (n - 10)))"
    unfolding ieee_frac_def ieee_exp_def
    by (simp_all only: bit_and_iff bit_drop_bit_eq o_apply bit16_consts) auto
  moreover have "n < 16"
    using assms(3) by (rule bit_imp_le_length [where ?'a = 16, simplified])
  ultimately show ?thesis
    using assms(3) by (cases "n < 10") auto
qed

lemma round_trip_zero:
  assumes "ieee_exp h = 0" and "ieee_frac h = 0"
  shows "float32_to_float16 (float16_to_float32 h) = h"
proof -
  define s where "s = (push_bit 16 (ucast (h AND 0x8000)) :: 32 word)"
  have widened: "float16_to_float32 h = s"
    unfolding s_def using assms by (rule float16_to_float32_zero)
  have exponent: "s AND 0x7f800000 = 0"
    unfolding s_def
    by (rule bit_word_eqI) (simp only: bit_and_iff bit_widen_sign bit32_0x7f800000, auto)
  have sign: "s AND 0x80000000 = s"
    unfolding s_def
    by (rule bit_word_eqI) (simp only: bit_and_iff bit_widen_sign bit32_0x80000000, auto)
  have "float32_to_float16 s = to_float16 (drop_bit 16 s)"
    unfolding float32_to_float16_def Let_def exponent sign by simp
  also have "\<dots> = h"
    unfolding to_float16_def s_def
    by (rule bit_word_eqI)
      (simp only: bit_ucast_iff bit_drop_bit_eq o_apply bit_widen_sign,
        auto simp: possible_bit_word dest: zero_fields_bits [OF assms])
  finally show ?thesis
    unfolding widened .
qed

text \<open>
  The round trip on every finite pattern that is not a subnormal: narrowing the widened
  value gives the pattern back.
\<close>

lemma round_trip_normal_or_zero:
  assumes "ieee_exp h \<noteq> 0x1f" and "ieee_exp h \<noteq> 0 \<or> ieee_frac h = 0"
  shows "float32_to_float16 (float16_to_float32 h) = h"
  using assms round_trip_normal [of h] round_trip_zero [of h] by blast

lemma bit32_0xff: "bit (0xff :: 32 word) n \<longleftrightarrow> n < 8"
  using bit_mask_iff [where ?'a = "32 word" and m = 8 and n = n]
  by (auto simp: mask_eq_exp_minus_1)

lemma exponent_field_eq:
  fixes w :: "32 word"
  shows "drop_bit 23 w AND 0xff = drop_bit 23 (w AND 0x7f800000)"
  by (rule bit_word_eqI)
    (simp only: bit_and_iff bit_drop_bit_eq o_apply bit32_0xff bit32_0x7f800000, auto)

lemma sign_bit_eq:
  fixes w :: "32 word"
  shows "bit w 31 \<longleftrightarrow> bit (w AND 0x80000000) 31"
  by (simp only: bit_and_iff bit32_0x80000000) simp

lemma ieee_sign_eq_1_iff: "ieee_sign h = 1 \<longleftrightarrow> bit h 15"
proof
  assume "ieee_sign h = 1"
  then have "bit (drop_bit 15 h) 0 \<longleftrightarrow> bit (1 :: 16 word) 0"
    by (simp only: ieee_sign_def)
  then show "bit h 15"
    by (simp add: bit_drop_bit_eq)
next
  assume "bit h 15"
  then show "ieee_sign h = 1"
    unfolding ieee_sign_def
    by (intro bit_word_eqI) (auto simp: bit_drop_bit_eq bit_1_iff dest: bit_imp_le_length)
qed

lemma binary32_of_binary16_magnitude:
  fixes e f :: nat
  shows "(of_nat ((2 ^ 23 + 8192 * f) * 2 ^ (e + 112)) / 2 ^ 150 :: rat) =
         of_nat ((2 ^ 10 + f) * 2 ^ e) / 2 ^ 25"
proof -
  have "(2 ^ 23 + 8192 * f) * 2 ^ (e + 112) = ((2 ^ 10 + f) * 2 ^ e) * 2 ^ 125"
    by (simp add: power_add algebra_simps)
  moreover have "(2 :: rat) ^ 150 = 2 ^ 25 * 2 ^ 125"
    by (simp only: power_add [symmetric]) simp
  ultimately show ?thesis
    by (simp only: of_nat_mult of_nat_power of_nat_numeral) simp
qed

lemma float16_to_float32_exact_normal:
  assumes "ieee_exp h \<noteq> 0" and "ieee_exp h \<noteq> 0x1f"
  shows "float32_value (float16_to_float32 h) = float16_value h"
proof -
  define x where "x = (ucast (ieee_exp h) :: 32 word) + 0x70"
  define w where "w = float16_to_float32 h"
  define e f where "e = unat (ieee_exp h)" and "f = unat (ieee_frac h)"
  have w: "w = push_bit 16 (ucast (h AND 0x8000)) OR push_bit 23 x
      OR push_bit 13 (ucast (h AND 0x3ff))"
    unfolding w_def x_def using assms
    by (simp only: float16_to_float32_normal ieee_frac_def simp_thms)
  have e: "0 < e" "e < 31"
    unfolding e_def using assms by (rule normal_exponent_range)+
  have unat_x: "unat x = e + 112"
    unfolding x_def e_def by (rule rebiased_exponent)
  then have small: "unat x < 2 ^ 8"
    using e by simp
  note fields = assembled_fields(1-3) [where h = h, OF small, folded w]
    assembled_fields(4) [OF small]
  have exponent: "unat (drop_bit 23 w AND 0xff) = e + 112"
    by (simp only: exponent_field_eq fields unat_x)
  have fraction: "unat (w AND 0x7fffff) = 8192 * f"
    by (simp only: fields unat_widen_coef f_def)
  have sign: "bit w 31 \<longleftrightarrow> ieee_sign h = 1"
    by (simp only: sign_bit_eq [of w] fields bit_widen_sign ieee_sign_eq_1_iff simp_thms)
  have "float32_value w =
      Some (if ieee_sign h = 1 then - (of_nat ((2 ^ 23 + 8192 * f) * 2 ^ (e + 112)) / 2 ^ 150)
            else of_nat ((2 ^ 23 + 8192 * f) * 2 ^ (e + 112)) / 2 ^ 150)"
    unfolding float32_value_def Let_def exponent fraction sign using e by simp
  also have "\<dots> = float16_value h"
    unfolding float16_value_def Let_def e_def [symmetric] f_def [symmetric]
      binary32_of_binary16_magnitude
    using e by simp
  finally show ?thesis
    unfolding w_def .
qed

lemma float16_to_float32_exact_zero:
  assumes "ieee_exp h = 0" and "ieee_frac h = 0"
  shows "float32_value (float16_to_float32 h) = float16_value h"
proof -
  define s where "s = (push_bit 16 (ucast (h AND 0x8000)) :: 32 word)"
  have widened: "float16_to_float32 h = s"
    unfolding s_def using assms by (rule float16_to_float32_zero)
  have "drop_bit 23 s AND 0xff = 0"
    unfolding s_def
    by (rule bit_word_eqI)
      (simp only: bit_and_iff bit_drop_bit_eq o_apply bit_widen_sign bit32_0xff, auto)
  moreover have "s AND 0x7fffff = 0"
    unfolding s_def
    by (rule bit_word_eqI) (simp only: bit_and_iff bit_widen_sign bit32_0x7fffff, auto)
  ultimately have "float32_value s = Some 0"
    unfolding float32_value_def Let_def by simp
  moreover have "float16_value h = Some 0"
    unfolding float16_value_def Let_def assms by simp
  ultimately show ?thesis
    unfolding widened by simp
qed

text \<open>
  Widening is exact on every finite pattern that is not a subnormal, and a subnormal of
  fraction \<open>f\<close> is widened to \<open>2\<^sup>-\<^sup>1\<^sup>4 * (1 + f / 1024)\<close> in place of
  \<open>2\<^sup>-\<^sup>1\<^sup>4 * (f / 1024)\<close>.
\<close>

lemma float16_to_float32_exact:
  assumes "ieee_exp h \<noteq> 0x1f" and "ieee_exp h \<noteq> 0 \<or> ieee_frac h = 0"
  shows "float32_value (float16_to_float32 h) = float16_value h"
  using assms float16_to_float32_exact_normal [of h] float16_to_float32_exact_zero [of h]
  by blast

lemma float16_to_float32_subnormal_value:
  assumes "ieee_exp h = 0" and "ieee_frac h \<noteq> 0"
  shows "float32_value (float16_to_float32 h) =
           Some ((if ieee_sign h = 1 then - 1 else 1) * of_nat (1024 + unat (ieee_frac h)) / 2 ^ 24)"
    and "float16_value h =
           Some ((if ieee_sign h = 1 then - 1 else 1) * of_nat (unat (ieee_frac h)) / 2 ^ 24)"
    and "float32_value (float16_to_float32 h) \<noteq> float16_value h"
proof -
  define w where "w = float16_to_float32 h"
  define f where "f = unat (ieee_frac h)"
  have w: "w = push_bit 16 (ucast (h AND 0x8000)) OR push_bit 23 0x71
      OR push_bit 13 (ucast (h AND 0x3ff))"
    unfolding w_def using assms by (simp add: float16_to_float32_subnormal ieee_frac_def)
  have small: "unat (0x71 :: 32 word) < 2 ^ 8"
    by simp
  note fields = assembled_fields(1-3) [where h = h, OF small, folded w]
    assembled_fields(4) [OF small]
  have exponent: "unat (drop_bit 23 w AND 0xff) = 113"
    by (simp only: exponent_field_eq fields) simp
  have fraction: "unat (w AND 0x7fffff) = 8192 * f"
    by (simp only: fields unat_widen_coef f_def)
  have sign: "bit w 31 \<longleftrightarrow> ieee_sign h = 1"
    by (simp only: sign_bit_eq [of w] fields bit_widen_sign ieee_sign_eq_1_iff simp_thms)
  have magnitude: "(of_nat ((2 ^ 23 + 8192 * f) * 2 ^ 113) / 2 ^ 150 :: rat) =
      of_nat (1024 + f) / 2 ^ 24"
    using binary32_of_binary16_magnitude [of f 1] by simp
  have "float32_value w =
      Some (if ieee_sign h = 1 then - (of_nat ((2 ^ 23 + 8192 * f) * 2 ^ 113) / 2 ^ 150)
            else of_nat ((2 ^ 23 + 8192 * f) * 2 ^ 113) / 2 ^ 150)"
    unfolding float32_value_def Let_def exponent fraction sign by simp
  also have "\<dots> = Some ((if ieee_sign h = 1 then - 1 else 1) * of_nat (1024 + f) / 2 ^ 24)"
    by (cases "ieee_sign h = 1")
      (simp_all only: magnitude if_True if_False simp_thms mult_minus1 mult_1 minus_divide_left)
  finally show widened: "float32_value (float16_to_float32 h) =
      Some ((if ieee_sign h = 1 then - 1 else 1) * of_nat (1024 + unat (ieee_frac h)) / 2 ^ 24)"
    unfolding w_def f_def .
  show exact: "float16_value h =
      Some ((if ieee_sign h = 1 then - 1 else 1) * of_nat (unat (ieee_frac h)) / 2 ^ 24)"
    unfolding float16_value_def Let_def assms(1) by simp
  show "float32_value (float16_to_float32 h) \<noteq> float16_value h"
    unfolding widened exact by simp
qed

lemma bit16_0x400: "bit (0x400 :: 16 word) n \<longleftrightarrow> n = 10"
  using bit_exp_iff [where ?'a = "16 word" and m = 10 and n = n] by auto

text \<open>Narrowing the value that a subnormal is widened to returns a normal pattern.\<close>

lemma round_trip_subnormal:
  assumes "ieee_exp h = 0" and "ieee_frac h \<noteq> 0"
  shows "float32_to_float16 (float16_to_float32 h) = h OR 0x400"
    and "float32_to_float16 (float16_to_float32 h) \<noteq> h"
proof -
  define w where "w = float16_to_float32 h"
  have w: "w = push_bit 16 (ucast (h AND 0x8000)) OR push_bit 23 0x71
      OR push_bit 13 (ucast (h AND 0x3ff))"
    unfolding w_def using assms by (simp add: float16_to_float32_subnormal ieee_frac_def)
  have small: "unat (0x71 :: 32 word) < 2 ^ 8"
    by simp
  note fields = assembled_fields(1-3) [where h = h, OF small, folded w]
    assembled_fields(4) [OF small]
  have he: "half_exponent w = 1"
    unfolding half_exponent_def fields by simp
  have finite: "w AND 0x7f800000 \<noteq> 0x7f800000"
    unfolding fields by simp
  have path: "\<not> half_exponent w \<le> 0" "half_exponent w \<noteq> 0x1f" "- 10 \<le> half_exponent w"
    unfolding he by simp_all
  have "\<not> bit (push_bit 13 (ucast (h AND 0x3ff)) :: 32 word) 12"
    by (simp only: bit_widen_coef) simp
  then have no_round: "\<not> round_up_test (significand w) (round_bit w)"
    using path(1) by (simp only: round_up_test_bits round_bit_def round_pos_def significand_def
        fields if_False simp_thms)
  have exponent_clear: "\<not> bit h n" if "10 \<le> n" "n < 15" for n
  proof -
    have "\<not> bit (ieee_exp h) (n - 10)"
      unfolding assms(1) by simp
    then show ?thesis
      unfolding ieee_exp_def using that
      by (simp only: bit_and_iff bit_drop_bit_eq o_apply bit16_consts) auto
  qed
  have "float32_to_float16 w = rounded w False"
    using float32_to_float16_rounded [OF finite path(2,3)] no_round by (simp only:)
  also have "\<dots> = to_float16
     (drop_bit 16 (push_bit 16 (ucast (h AND 0x8000)))
      OR push_bit 10 1
      OR drop_bit 13 (push_bit 13 (ucast (h AND 0x3ff))))"
    using path(1)
    by (simp only: rounded_def Let_def round_pos_def significand_def fields he
        if_False add_0_right) simp
  also have "\<dots> = h OR 0x400"
  proof (unfold to_float16_def, rule bit_word_eqI)
    fix n
    assume "n < LENGTH(16)"
    then have "n < 10 \<or> n = 10 \<or> (10 < n \<and> n < 15) \<or> n = 15"
      by auto
    then show "bit (ucast
       (drop_bit 16 (push_bit 16 (ucast (h AND 0x8000)))
        OR push_bit 10 1
        OR drop_bit 13 (push_bit 13 (ucast (h AND 0x3ff))) :: 32 word) :: 16 word) n
      \<longleftrightarrow> bit (h OR 0x400) n"
      using exponent_clear [of n]
      by (simp only: bit_ucast_iff bit_or_iff bit_drop_bit_eq o_apply bit_widen_sign
          bit_widen_coef bit16_0x400, simp only: bit_push_bit_iff bit_1_iff)
        (auto simp: possible_bit_word)
  qed
  finally show result: "float32_to_float16 (float16_to_float32 h) = h OR 0x400"
    unfolding w_def .
  have "bit (h OR 0x400) 10" "\<not> bit h 10"
    using exponent_clear [of 10] by (simp_all only: bit_or_iff bit16_0x400) simp_all
  then have "h OR 0x400 \<noteq> h"
    by auto
  then show "float32_to_float16 (float16_to_float32 h) \<noteq> h"
    unfolding result .
qed

end
